theory Spec2Isabelle
  imports Main "HOL-Library.Multiset"
begin

section \<open>Values and text\<close>

text \<open>
  The navigation tree arrives as JSON. The scalar fields the scraper reads (\<open>id\<close>,
  \<open>title\<close>, \<open>view_level\<close>, \<open>section_id\<close>) are modelled as JSON strings or JSON
  integers; \<open>py_str\<close> is what an f-string makes of them. A Python \<open>str\<close> is modelled
  as a \<open>string\<close> whose characters are the code points below 256.
\<close>

datatype scalar = Str string | Num int

fun str_nat :: "nat \<Rightarrow> string" where
  "str_nat n =
     (if n < 10 then [char_of (48 + n)]
      else str_nat (n div 10) @ [char_of (48 + n mod 10)])"

declare str_nat.simps [simp del]

fun py_str :: "scalar \<Rightarrow> string" where
  "py_str (Str s) = s"
| "py_str (Num i) = (if i < 0 then CHR ''-'' # str_nat (nat (- i)) else str_nat (nat i))"

text \<open>
  \<open>str.isspace\<close> on the code points below 256: TAB, LF, VT, FF, CR, the four separators
  FS, GS, RS, US, the space, NEL (0x85) and the no-break space (0xA0).
\<close>

definition isspace :: "char \<Rightarrow> bool" where
  "isspace c \<longleftrightarrow>
     (of_char c :: nat) \<in> {9, 10, 11, 12, 13, 28, 29, 30, 31, 32, 133, 160}"

text \<open>\<open>str.strip()\<close> without arguments: whitespace removed at both ends.\<close>

definition lstrip :: "string \<Rightarrow> string" where
  "lstrip s = dropWhile isspace s"

definition rstrip :: "string \<Rightarrow> string" where
  "rstrip s = rev (dropWhile isspace (rev s))"

definition strip :: "string \<Rightarrow> string" where
  "strip s = rstrip (lstrip s)"

text \<open>
  \<^verbatim>\<open>
  def __parse_text(self, text):
      _text = text.strip()
      if not _text:
          return ""
      return _text
  \<close>
\<close>

definition parse_text :: "string \<Rightarrow> string" where
  "parse_text text = (let t = strip text in if t = [] then [] else t)"

text \<open>A text is trimmed when neither its first nor its last character is whitespace.\<close>

definition trimmed :: "string \<Rightarrow> bool" where
  "trimmed s \<longleftrightarrow> (case s of [] \<Rightarrow> True | c # _ \<Rightarrow> \<not> isspace c \<and> \<not> isspace (last s))"

definition whitespace_only :: "string \<Rightarrow> bool" where
  "whitespace_only s \<longleftrightarrow> list_all isspace s"

section \<open>The navigation flattener\<close>

datatype error = KeyError string | AttributeError string | RequestException string
  | ValueError string | OSError string

text \<open>
  A call that may raise returns \<open>Inl\<close> of the exception; \<open>and_then\<close> runs the next step
  on a result and passes an exception on.
\<close>

definition and_then :: "error + 'a \<Rightarrow> ('a \<Rightarrow> error + 'b) \<Rightarrow> error + 'b" where
  "and_then r f = (case r of Inl e \<Rightarrow> Inl e | Inr x \<Rightarrow> f x)"

text \<open>
  A node of the navigation tree is a JSON object. The scraper looks at six of its keys;
  each is \<open>None\<close> when the object lacks the key. The two keys for children hold lists of
  nodes, the other four hold scalars.
\<close>

datatype node = Node
  (subsections_for_nav_tree: "node list option")
  (recommendations_for_nav_tree: "node list option")
  (node_id: "scalar option")
  (node_title: "scalar option")
  (view_level: "scalar option")
  (section_id: "scalar option")

record leaf_item =
  item_id :: scalar
  item_title :: scalar
  item_key :: string
  item_url :: string

text \<open>\<open>subsection[k]\<close> on a key the node may lack.\<close>

definition subscript :: "string \<Rightarrow> scalar option \<Rightarrow> error + scalar" where
  "subscript k v = (case v of None \<Rightarrow> Inl (KeyError k) | Some x \<Rightarrow> Inr x)"

text \<open>
  The dictionary appended for a node; its four subscripts are evaluated in the order
  \<open>id\<close>, \<open>title\<close>, \<open>view_level\<close>, \<open>section_id\<close>.
\<close>

definition new_item :: "node \<Rightarrow> error + leaf_item" where
  "new_item subsection =
     and_then (subscript ''id'' (node_id subsection)) (\<lambda>i.
     and_then (subscript ''title'' (node_title subsection)) (\<lambda>t.
     and_then (subscript ''view_level'' (view_level subsection)) (\<lambda>v.
     and_then (subscript ''section_id'' (section_id subsection)) (\<lambda>s.
       Inr \<lparr> item_id = i, item_title = t,
             item_key = py_str v @ '' '' @ py_str t,
             item_url = ''https://workbench.cisecurity.org/sections/'' @ py_str s
                          @ ''/recommendations/'' @ py_str i \<rparr>))))"

text \<open>
  Python's \<open>s and b\<close> for a string \<open>s\<close> and a boolean \<open>b\<close>, read as a condition: an
  empty string is false and decides, any other string leaves the decision to \<open>b\<close>.
\<close>

definition str_and :: "string \<Rightarrow> bool \<Rightarrow> bool" where
  "str_and s b = (if s = [] then False else b)"

text \<open>
  \<open>__extract_subsections\<close>. The list \<open>navtree_list\<close> that the source appends to is passed
  in and returned; \<open>for_each\<close> is the loop \<open>for x in xs: self.__extract_subsections(x,
  navtree_list)\<close>. The condition of the last \<open>if\<close> is the source's
  \<open>not ("recommendations_for_nav_tree" and "subsections_for_nav_tree" in subsection)\<close>,
  where \<open>in\<close> binds tighter than \<open>and\<close>.
\<close>

fun extract_subsections :: "node \<Rightarrow> leaf_item list \<Rightarrow> error + leaf_item list"
  and for_each :: "node list \<Rightarrow> leaf_item list \<Rightarrow> error + leaf_item list" where
  "extract_subsections (Node subs recs i t v s) navtree_list =
     (case (case subs of None \<Rightarrow> Inr navtree_list | Some xs \<Rightarrow> for_each xs navtree_list) of
        Inl e \<Rightarrow> Inl e
      | Inr l1 \<Rightarrow>
     (case (case recs of None \<Rightarrow> Inr l1 | Some ys \<Rightarrow> for_each ys l1) of
        Inl e \<Rightarrow> Inl e
      | Inr l2 \<Rightarrow>
        if \<not> str_and ''recommendations_for_nav_tree'' (subs \<noteq> None)
        then (case new_item (Node subs recs i t v s) of
                Inl e \<Rightarrow> Inl e
              | Inr item \<Rightarrow> Inr (l2 @ [item]))
        else Inr l2))"
| "for_each [] navtree_list = Inr navtree_list"
| "for_each (x # xs) navtree_list =
     (case extract_subsections x navtree_list of
        Inl e \<Rightarrow> Inl e
      | Inr l \<Rightarrow> for_each xs l)"

text \<open>The nodes listed under a key, none when the key is missing.\<close>

fun children :: "node list option \<Rightarrow> node list" where
  "children None = []"
| "children (Some xs) = xs"

lemma size_children:
  "x \<in> set (children c) \<Longrightarrow> size x \<le> size_option (size_list size) c"
proof (cases c)
  case None
  assume "x \<in> set (children c)"
  with None show ?thesis by simp
next
  case (Some xs)
  assume "x \<in> set (children c)"
  with Some have "x \<in> set xs" by simp
  then have "size x \<le> size_list size xs" by (rule size_list_estimation') simp
  with Some show ?thesis by simp
qed

lemma child_smaller:
  "x \<in> set (children subs) \<Longrightarrow>
     size x < Suc (size_option (size_list size) subs + size_option (size_list size) recs)"
  "x \<in> set (children recs) \<Longrightarrow>
     size x < Suc (size_option (size_list size) subs + size_option (size_list size) recs)"
  using size_children [of x subs] size_children [of x recs] by simp_all

text \<open>
  The nodes for which an item is appended, in the order of appending, as C10 words it:
  the node's subsections are gone through, then its recommendations, then the node
  itself follows if and only if it lacks the subsections key.
\<close>

function appended_nodes :: "node \<Rightarrow> node list" where
  "appended_nodes (Node subs recs i t v s) =
     concat (map appended_nodes (children subs)) @
     concat (map appended_nodes (children recs)) @
     (if subs = None then [Node subs recs i t v s] else [])"
  by pat_completeness auto
termination
  by (relation "measure size") (simp_all add: child_smaller)

text \<open>
  The items of a list of nodes, one after the other; the first node whose dictionary
  cannot be built raises, as it does in the source, where the items are built in this
  order.
\<close>

fun collect :: "node list \<Rightarrow> error + leaf_item list" where
  "collect [] = Inr []"
| "collect (m # ms) =
     (case new_item m of
        Inl e \<Rightarrow> Inl e
      | Inr item \<Rightarrow> (case collect ms of Inl e \<Rightarrow> Inl e | Inr items \<Rightarrow> Inr (item # items)))"

text \<open>The list a call returns: what it was given, then the new items.\<close>

definition extend_list :: "leaf_item list \<Rightarrow> error + leaf_item list \<Rightarrow> error + leaf_item list" where
  "extend_list acc r = (case r of Inl e \<Rightarrow> Inl e | Inr items \<Rightarrow> Inr (acc @ items))"

text \<open>
  The flattening the specification describes: a leaf is a node that has neither the
  subsections key nor the recommendations key, and the leaves are listed depth first,
  those below the subsections before those below the recommendations.
\<close>

definition is_leaf :: "node \<Rightarrow> bool" where
  "is_leaf n \<longleftrightarrow> subsections_for_nav_tree n = None \<and> recommendations_for_nav_tree n = None"

function dfs_leaves :: "node \<Rightarrow> node list" where
  "dfs_leaves (Node subs recs i t v s) =
     (if subs = None \<and> recs = None then [Node subs recs i t v s]
      else concat (map dfs_leaves (children subs)) @ concat (map dfs_leaves (children recs)))"
  by pat_completeness auto
termination
  by (relation "measure size") (simp_all add: child_smaller)

text \<open>
  A tree in which every node with the recommendations key has the subsections key too,
  as a section that lists both kinds of children does.
\<close>

function groups_have_subsections :: "node \<Rightarrow> bool" where
  "groups_have_subsections (Node subs recs i t v s) \<longleftrightarrow>
     (recs \<noteq> None \<longrightarrow> subs \<noteq> None) \<and>
     (\<forall>x \<in> set (children subs). groups_have_subsections x) \<and>
     (\<forall>x \<in> set (children recs). groups_have_subsections x)"
  by pat_completeness auto
termination
  by (relation "measure size") (simp_all add: child_smaller)

section \<open>The detail fetcher\<close>

text \<open>
  A parsed detail page is read only through \<open>_soup.find(tag, {"id": i}).text\<close>, so a
  page is modelled by that lookup: the text of the first element with the given tag and
  id, or \<open>None\<close> where \<open>find\<close> returns \<open>None\<close>. Reading \<open>.text\<close> of \<open>None\<close> raises
  \<open>AttributeError\<close>.
\<close>

type_synonym soup = "string \<times> string \<Rightarrow> string option"

record control_record =
  ctl_id :: scalar
  ctl_key :: string
  ctl_title :: scalar
  assessment_status :: string
  description :: string
  rationale :: string
  impact :: string
  audit :: string
  remediation :: string
  default_value :: string
  references :: string

text \<open>The expression \<open>self.__parse_text(_soup.find(tag, {"id": i}).text)\<close>.\<close>

definition extract_text :: "soup \<Rightarrow> string \<times> string \<Rightarrow> error + string" where
  "extract_text soup locator =
     (case soup locator of
        None \<Rightarrow> Inl (AttributeError ''text'')
      | Some text \<Rightarrow> Inr (parse_text text))"

definition locators :: "(string \<times> string) list" where
  "locators =
     [(''span'', ''automated_scoring-recomendtation-data''),
      (''div'', ''description-recomendtation-data''),
      (''div'', ''rationale_statement-recomendtation-data''),
      (''div'', ''impact_statement-recomendtation-data''),
      (''div'', ''audit_procedure-recomendtation-data''),
      (''div'', ''remediation_procedure-recomendtation-data''),
      (''div'', ''default_value-recomendtation-data''),
      (''div'', ''references-recomendtation-data'')]"

text \<open>
  \<open>__fetch_control\<close>: one GET of the item's url (\<open>session_get\<close> is the session with the
  page parser behind it and may raise), then the eight fields in the order of the
  dictionary display; the first failure is the failure of the fetch.
\<close>

definition fetch_control :: "(string \<Rightarrow> error + soup) \<Rightarrow> leaf_item \<Rightarrow> error + control_record" where
  "fetch_control session_get control =
     and_then (session_get (item_url control)) (\<lambda>soup.
     and_then (extract_text soup (''span'', ''automated_scoring-recomendtation-data'')) (\<lambda>f1.
     and_then (extract_text soup (''div'', ''description-recomendtation-data'')) (\<lambda>f2.
     and_then (extract_text soup (''div'', ''rationale_statement-recomendtation-data'')) (\<lambda>f3.
     and_then (extract_text soup (''div'', ''impact_statement-recomendtation-data'')) (\<lambda>f4.
     and_then (extract_text soup (''div'', ''audit_procedure-recomendtation-data'')) (\<lambda>f5.
     and_then (extract_text soup (''div'', ''remediation_procedure-recomendtation-data'')) (\<lambda>f6.
     and_then (extract_text soup (''div'', ''default_value-recomendtation-data'')) (\<lambda>f7.
     and_then (extract_text soup (''div'', ''references-recomendtation-data'')) (\<lambda>f8.
       Inr \<lparr> ctl_id = item_id control, ctl_key = item_key control,
             ctl_title = item_title control,
             assessment_status = f1, description = f2, rationale = f3, impact = f4,
             audit = f5, remediation = f6, default_value = f7, references = f8 \<rparr>)))))))))"

section \<open>The scraper's state and the run\<close>

text \<open>
  A Python \<open>dict\<close> keeps its keys in the order of their first insertion; assigning to a
  key that is present replaces the value where it stands.
\<close>

fun dict_set :: "('k \<times> 'v) list \<Rightarrow> 'k \<Rightarrow> 'v \<Rightarrow> ('k \<times> 'v) list" where
  "dict_set [] k v = [(k, v)]"
| "dict_set ((k', v') # d) k v =
     (if k' = k then (k', v) # d else (k', v') # dict_set d k v)"

definition dict_values :: "('k \<times> 'v) list \<Rightarrow> 'v list" where
  "dict_values d = map snd d"

definition dict_keys :: "('k \<times> 'v) list \<Rightarrow> 'k list" where
  "dict_keys d = map fst d"

record benchmark_data =
  bd_title :: string
  controls :: "(scalar \<times> control_record) list"
  bd_total :: "nat option"

datatype event =
    Parsing_navigation_tree
  | Parsing_completed
  | Scraping nat nat
  | Error_scraping scalar error
  | Done_saving "string \<times> string"

text \<open>
  What a written file holds: the result, dumped as JSON, or the text the csv writer
  produced, or nothing.
\<close>

datatype file_content = Json benchmark_data | Csv string | Empty_file

record scraper =
  benchmark_data :: benchmark_data
  num_threads :: int
  format :: string
  output_dir :: string
  output_filename :: string
  stdout :: "event list"
  files :: "((string \<times> string) \<times> file_content) list"

text \<open>
  The part of \<open>__init__\<close> that sets up the result and the file name, from the benchmark
  title and the command-line arguments; nothing is printed or written yet. The argument
  \<open>output_path\<close> is \<open>None\<close> when the option is not given; a missing or empty path stands
  for the directory \<open>output\<close>.
\<close>

definition init :: "string \<Rightarrow> int \<Rightarrow> string \<Rightarrow> string option \<Rightarrow> scraper" where
  "init benchmark_title threads fmt output_path =
     \<lparr> benchmark_data = \<lparr> bd_title = benchmark_title, controls = [], bd_total = None \<rparr>,
       num_threads = threads,
       format = fmt,
       output_dir = (case output_path of
                       None \<Rightarrow> ''output''
                     | Some path \<Rightarrow> if path = [] then ''output'' else path),
       output_filename = map (\<lambda>c. if c = CHR '' '' then CHR ''_'' else c) benchmark_title,
       stdout = [],
       files = [] \<rparr>"

definition print :: "event \<Rightarrow> scraper \<Rightarrow> scraper" where
  "print e st = st\<lparr>stdout := stdout st @ [e]\<rparr>"

text \<open>
  How a call of \<open>main\<close> ends: it returns, \<open>exit(code)\<close> ends the process, or an exception
  nobody catches ends it (with status 1).
\<close>

datatype outcome = Returned scraper | SystemExit int scraper | Uncaught error scraper

fun final :: "outcome \<Rightarrow> scraper" where
  "final (Returned st) = st"
| "final (SystemExit code st) = st"
| "final (Uncaught e st) = st"

fun exit_status :: "outcome \<Rightarrow> int" where
  "exit_status (Returned st) = 0"
| "exit_status (SystemExit code st) = code"
| "exit_status (Uncaught e st) = 1"

text \<open>
  \<open>__parse_navtree\<close>, from the decoded navigation tree on: the tree's items are flattened
  into one list, in order.
\<close>

definition parse_navtree :: "node list \<Rightarrow> scraper \<Rightarrow> (error + leaf_item list) \<times> scraper" where
  "parse_navtree navigation_tree st =
     (let st1 = print Parsing_navigation_tree st
      in case for_each navigation_tree [] of
           Inl e \<Rightarrow> (Inl e, st1)
         | Inr navtree_data \<Rightarrow> (Inr navtree_data, print Parsing_completed st1))"

text \<open>
  The loop over \<open>as_completed(futures)\<close>. The futures arrive in the order in which the
  fetches finish, which the pool decides; the loop is given that order as the list of
  the controls the finished futures were submitted for. The result of a future is the
  result of \<open>__fetch_control\<close> on its control.
\<close>

fun main_loop ::
  "(string \<Rightarrow> error + soup) \<Rightarrow> nat \<Rightarrow> nat \<Rightarrow> leaf_item list \<Rightarrow> scraper \<Rightarrow> outcome" where
  "main_loop session_get n index_control [] st = Returned st"
| "main_loop session_get n index_control (control # rest) st =
     (case fetch_control session_get control of
        Inr data \<Rightarrow>
          main_loop session_get n (index_control + 1) rest
            (print (Scraping (index_control + 1) n)
               (st\<lparr>benchmark_data := (benchmark_data st)
                    \<lparr>controls := dict_set (controls (benchmark_data st)) (item_id control) data\<rparr>\<rparr>))
      | Inl e \<Rightarrow> SystemExit 1 (print (Error_scraping (item_id control) e) st))"

text \<open>The eleven values of a record, in the order of the dictionary display that built it.\<close>

definition control_values :: "control_record \<Rightarrow> scalar list" where
  "control_values r =
     [ctl_id r, Str (ctl_key r), ctl_title r, Str (assessment_status r), Str (description r),
      Str (rationale r), Str (impact r), Str (audit r), Str (remediation r),
      Str (default_value r), Str (references r)]"

definition header_row :: "scalar list" where
  "header_row =
     map Str [''id'', ''key'', ''title'', ''assessment_status'', ''description'', ''rationale'',
              ''impact'', ''audit'', ''remediation'', ''default_value'', ''references'']"

text \<open>The rows handed to \<open>csv_writer.writerow\<close>, one call each, in the order of the calls.\<close>

definition csv_rows :: "benchmark_data \<Rightarrow> scalar list list" where
  "csv_rows d = header_row # map control_values (dict_values (controls d))"

text \<open>
  The text \<open>csv.writer(f).writerow\<close> writes for a row, in the default dialect: every value
  goes through \<open>str\<close>; a field that holds a comma, a double quote, a carriage return or
  a line feed is put in double quotes with its double quotes doubled; the fields are
  joined by commas and the row ends with carriage return and line feed. A row of one
  empty field is written as two double quotes. The file is opened in text mode on a
  system whose line separator is the line feed, so the text reaches the file as it is.
\<close>

fun join :: "'a list \<Rightarrow> 'a list list \<Rightarrow> 'a list" where
  "join sep [] = []"
| "join sep [x] = x"
| "join sep (x # y # ys) = x @ sep @ join sep (y # ys)"

definition needs_quotes :: "string \<Rightarrow> bool" where
  "needs_quotes s \<longleftrightarrow> list_ex (\<lambda>c. c \<in> set [CHR '','', CHR 0x22, CHR 0x0D, CHR 0x0A]) s"

definition render_field :: "string \<Rightarrow> string" where
  "render_field s =
     (if needs_quotes s
      then [CHR 0x22] @ concat (map (\<lambda>c. if c = CHR 0x22 then [c, c] else [c]) s) @ [CHR 0x22]
      else s)"

text \<open>A row's text up to its line feed, and with it.\<close>

definition row_line :: "string list \<Rightarrow> string" where
  "row_line cells =
     (let line = join '','' (map render_field cells)
      in (if length cells = 1 \<and> line = [] then [CHR 0x22, CHR 0x22] else line) @ [CHR 0x0D])"

definition writerow :: "scalar list \<Rightarrow> string" where
  "writerow row = row_line (map py_str row) @ [CHR 0x0A]"

definition csv_text :: "scalar list list \<Rightarrow> string" where
  "csv_text rows = concat (map writerow rows)"

text \<open>
  The lines of a text are its pieces between line feeds (a last piece without a line
  feed counts when it is not empty); the comma-separated fields of a line are its pieces
  between commas.
\<close>

fun split_on :: "'a \<Rightarrow> 'a list \<Rightarrow> 'a list list" where
  "split_on sep [] = [[]]"
| "split_on sep (c # cs) =
     (if c = sep then [] # split_on sep cs
      else (case split_on sep cs of [] \<Rightarrow> [[c]] | p # ps \<Rightarrow> (c # p) # ps))"



definition output_file :: "scraper \<Rightarrow> string \<times> string" where
  "output_file st = (output_dir st, output_filename st @ ''.'' @ format st)"

text \<open>
  The end of \<open>main\<close>: the file is opened for writing (\<open>can_open\<close> says whether the file
  system lets it) and filled according to the format.
\<close>

definition save :: "(string \<times> string \<Rightarrow> bool) \<Rightarrow> scraper \<Rightarrow> outcome" where
  "save can_open st =
     (let st1 = print (Done_saving (output_file st)) st
      in if \<not> can_open (output_file st) then Uncaught (OSError ''open'') st1
         else Returned (st1\<lparr>files := files st1 @
                [(output_file st,
                  if format st = ''json'' then Json (benchmark_data st)
                  else if format st = ''csv'' then Csv (csv_text (csv_rows (benchmark_data st)))
                  else Empty_file)]\<rparr>))"

text \<open>\<open>main\<close> once the navigation tree is flattened into \<open>navtree_parsed\<close>.\<close>

definition main_from ::
  "(string \<Rightarrow> error + soup) \<Rightarrow> (string \<times> string \<Rightarrow> bool) \<Rightarrow>
   leaf_item list \<Rightarrow> leaf_item list \<Rightarrow> scraper \<Rightarrow> outcome" where
  "main_from session_get can_open navtree_parsed as_completed st =
     (if num_threads st \<le> 0
      then Uncaught (ValueError ''max_workers must be greater than 0'') st
      else case main_loop session_get (length navtree_parsed) 0 as_completed st of
             Returned st1 \<Rightarrow>
               save can_open
                 (st1\<lparr>benchmark_data := (benchmark_data st1)
                       \<lparr>bd_total := Some (length (controls (benchmark_data st1)))\<rparr>\<rparr>)
           | SystemExit code st1 \<Rightarrow> SystemExit code st1
           | Uncaught e st1 \<Rightarrow> Uncaught e st1)"

text \<open>
  \<open>main\<close>: \<open>schedule\<close> is the pool's choice of the order in which the fetches of a work
  list finish.
\<close>

definition main ::
  "(string \<Rightarrow> error + soup) \<Rightarrow> (string \<times> string \<Rightarrow> bool) \<Rightarrow>
   (leaf_item list \<Rightarrow> leaf_item list) \<Rightarrow> node list \<Rightarrow> scraper \<Rightarrow> outcome" where
  "main session_get can_open schedule navigation_tree st =
     (case parse_navtree navigation_tree st of
        (Inl e, st1) \<Rightarrow> Uncaught e st1
      | (Inr navtree_parsed, st1) \<Rightarrow>
          main_from session_get can_open navtree_parsed (schedule navtree_parsed) st1)"

text \<open>
  What the loop prints, for stating its behaviour: the counts of the progress lines in an
  output, whether a fetch succeeds, and the line the \<open>except\<close> branch prints for the
  first control of a list if its fetch fails.
\<close>

fun progress_counts :: "event list \<Rightarrow> nat list" where
  "progress_counts [] = []"
| "progress_counts (Scraping k n # es) = k # progress_counts es"
| "progress_counts (e # es) = progress_counts es"

definition succeeds :: "(string \<Rightarrow> error + soup) \<Rightarrow> leaf_item \<Rightarrow> bool" where
  "succeeds get c = (case fetch_control get c of Inl e \<Rightarrow> False | Inr r \<Rightarrow> True)"

definition failure_report :: "(string \<Rightarrow> error + soup) \<Rightarrow> leaf_item list \<Rightarrow> event list" where
  "failure_report get cs =
     (case cs of [] \<Rightarrow> []
      | c # rest \<Rightarrow> (case fetch_control get c of Inl e \<Rightarrow> [Error_scraping (item_id c) e] | Inr r \<Rightarrow> []))"

section \<open>Example data\<close>

text \<open>
  A recommendation, and a group that lists it under the recommendations key and has no
  subsections key.
\<close>

definition example_leaf :: node where
  "example_leaf =
     Node None None (Some (Str ''A'')) (Some (Str ''Ensure X'')) (Some (Str ''1.1'')) (Some (Num 7))"

definition example_group :: node where
  "example_group =
     Node None (Some [example_leaf]) (Some (Num 7)) (Some (Str ''Logging'')) (Some (Str ''1''))
       (Some (Num 3))"

definition example_leaf_item :: leaf_item where
  "example_leaf_item =
     \<lparr> item_id = Str ''A'', item_title = Str ''Ensure X'', item_key = ''1.1 Ensure X'',
       item_url = ''https://workbench.cisecurity.org/sections/7/recommendations/A'' \<rparr>"

definition example_group_item :: leaf_item where
  "example_group_item =
     \<lparr> item_id = Num 7, item_title = Str ''Logging'', item_key = ''1 Logging'',
       item_url = ''https://workbench.cisecurity.org/sections/3/recommendations/7'' \<rparr>"

text \<open>
  A second work item, pages with every element present, with only blank text and with
  no element at all, three networks, the record fetched from the first page, a scraper
  as \<open>__init__\<close> leaves it, and a result with two controls.
\<close>

definition example_item_B :: leaf_item where
  "example_item_B =
     \<lparr> item_id = Str ''B'', item_title = Str ''Ensure Y'', item_key = ''1.2 Ensure Y'',
       item_url = ''https://workbench.cisecurity.org/sections/7/recommendations/B'' \<rparr>"

definition example_page :: soup where
  "example_page = (\<lambda>locator. Some ''  Automated  '')"

definition blank_page :: soup where
  "blank_page = (\<lambda>locator. Some [CHR '' '', CHR 0x0A])"

definition empty_page :: soup where
  "empty_page = (\<lambda>locator. None)"

definition example_get :: "string \<Rightarrow> error + soup" where
  "example_get url = Inr example_page"

definition failing_get :: "string \<Rightarrow> error + soup" where
  "failing_get url = Inl (RequestException ''timeout'')"

definition flaky_get :: "string \<Rightarrow> error + soup" where
  "flaky_get url = (if url = item_url example_item_B then Inr empty_page else Inr example_page)"

definition example_record :: "leaf_item \<Rightarrow> control_record" where
  "example_record control =
     \<lparr> ctl_id = item_id control, ctl_key = item_key control, ctl_title = item_title control,
       assessment_status = ''Automated'', description = ''Automated'', rationale = ''Automated'',
       impact = ''Automated'', audit = ''Automated'', remediation = ''Automated'',
       default_value = ''Automated'', references = ''Automated'' \<rparr>"

definition example_scraper :: scraper where
  "example_scraper = init ''CIS Benchmark'' 10 ''csv'' None"


text \<open>
  A network whose pages have only blank text, a page whose description holds a line
  break with the record fetched from it and a result that holds that record, and a file
  system that lets every file be opened.
\<close>

definition blank_get :: "string \<Rightarrow> error + soup" where
  "blank_get url = Inr blank_page"





definition writable :: "string \<times> string \<Rightarrow> bool" where
  "writable path = True"

section \<open>Text normalisation\<close>

lemma trimmed_iff: "trimmed s \<longleftrightarrow> s = [] \<or> (\<not> isspace (hd s) \<and> \<not> isspace (last s))"
  by (cases s) (simp_all add: trimmed_def)

lemma lstrip_id: "s = [] \<or> \<not> isspace (hd s) \<Longrightarrow> lstrip s = s"
  by (cases s) (auto simp: lstrip_def)

lemma rstrip_id: "s = [] \<or> \<not> isspace (last s) \<Longrightarrow> rstrip s = s"
proof (cases "s = []")
  case True
  then show ?thesis by (simp add: rstrip_def)
next
  case False
  assume "s = [] \<or> \<not> isspace (last s)"
  with False have "\<not> isspace (hd (rev s))" by (simp add: hd_rev)
  moreover from False have "rev s \<noteq> []" by simp
  ultimately have "dropWhile isspace (rev s) = rev s"
    by (cases "rev s") simp_all
  then show ?thesis by (simp add: rstrip_def)
qed

lemma strip_trimmed_id: "trimmed s \<Longrightarrow> strip s = s"
  by (auto simp: trimmed_iff strip_def lstrip_id rstrip_id)

lemma lstrip_hd: "lstrip s \<noteq> [] \<Longrightarrow> \<not> isspace (hd (lstrip s))"
  unfolding lstrip_def by (rule hd_dropWhile)

lemma rstrip_last: "rstrip s \<noteq> [] \<Longrightarrow> \<not> isspace (last (rstrip s))"
proof -
  assume "rstrip s \<noteq> []"
  then have ne: "dropWhile isspace (rev s) \<noteq> []" by (simp add: rstrip_def del: dropWhile_eq_Nil_conv)
  then have "\<not> isspace (hd (dropWhile isspace (rev s)))" by (rule hd_dropWhile)
  with ne show ?thesis by (simp add: rstrip_def last_rev del: dropWhile_eq_Nil_conv)
qed

lemma rstrip_prefix: "\<exists>ws. s = rstrip s @ ws"
proof -
  have "rev (takeWhile isspace (rev s) @ dropWhile isspace (rev s)) = s"
    by (simp only: takeWhile_dropWhile_id rev_rev_ident)
  then have "s = rstrip s @ rev (takeWhile isspace (rev s))"
    by (simp only: rev_append rstrip_def)
  then show ?thesis ..
qed

lemma rstrip_hd: "rstrip s \<noteq> [] \<Longrightarrow> hd (rstrip s) = hd s"
proof -
  assume ne: "rstrip s \<noteq> []"
  obtain ws where "s = rstrip s @ ws" using rstrip_prefix by blast
  then have "hd s = hd (rstrip s @ ws)" by simp
  with ne show ?thesis by simp
qed

lemma rstrip_Nil_lstrip: "rstrip s = [] \<Longrightarrow> lstrip s = []"
proof -
  assume "rstrip s = []"
  then have "\<forall>c \<in> set s. isspace c" by (simp add: rstrip_def)
  then show ?thesis by (simp add: lstrip_def)
qed

lemma strip_is_trimmed: "trimmed (strip s)"
proof (cases "strip s = []")
  case True
  then show ?thesis by (simp add: trimmed_iff)
next
  case False
  then have ne: "rstrip (lstrip s) \<noteq> []" by (simp add: strip_def)
  then have l: "lstrip s \<noteq> []" by (auto simp: rstrip_def)
  from ne have "hd (strip s) = hd (lstrip s)" unfolding strip_def by (rule rstrip_hd)
  with lstrip_hd [OF l] have "\<not> isspace (hd (strip s))" by simp
  moreover from rstrip_last [OF ne] have "\<not> isspace (last (strip s))" by (simp add: strip_def)
  ultimately show ?thesis by (simp add: trimmed_iff)
qed

lemma strip_empty_iff: "strip s = [] \<longleftrightarrow> whitespace_only s"
proof
  assume "strip s = []"
  then have "rstrip (lstrip s) = []" by (simp add: strip_def)
  then have "lstrip (lstrip s) = []" by (rule rstrip_Nil_lstrip)
  moreover have "lstrip (lstrip s) = lstrip s"
    using lstrip_hd [of s] by (intro lstrip_id) blast
  ultimately have "lstrip s = []" by simp
  then show "whitespace_only s" by (simp add: lstrip_def whitespace_only_def list_all_iff)
next
  assume "whitespace_only s"
  then have "lstrip s = []" by (simp add: lstrip_def whitespace_only_def list_all_iff)
  then show "strip s = []" by (simp add: strip_def rstrip_def)
qed

lemma parse_text_strip: "parse_text s = strip s"
  by (simp add: parse_text_def Let_def)

text \<open>
  C8. Text normalisation is idempotent: an already trimmed text is returned unchanged,
  a whitespace-only text gives the empty string, and normalising twice gives what
  normalising once gives.
\<close>

theorem parse_text_idempotent:
  "(trimmed s \<longrightarrow> parse_text s = s) \<and>
   (whitespace_only s \<longrightarrow> parse_text s = []) \<and>
   parse_text (parse_text s) = parse_text s"
  using strip_trimmed_id [of s] strip_empty_iff [of s]
    strip_trimmed_id [OF strip_is_trimmed, of s]
  by (simp add: parse_text_strip)

theorem parse_text_idempotent_witness:
  "trimmed ''Ensure X'' \<and> parse_text ''Ensure X'' = ''Ensure X'' \<and>
   whitespace_only [CHR '' '', CHR 0x09, CHR 0x0A] \<and>
   parse_text [CHR '' '', CHR 0x09, CHR 0x0A] = [] \<and>
   parse_text (parse_text ''  a b  '') = parse_text ''  a b  '' \<and>
   parse_text ''  a b  '' = ''a b''"
proof -
  have t: "trimmed ''Ensure X''"
    by (simp add: trimmed_def isspace_def)
  have w: "whitespace_only [CHR '' '', CHR 0x09, CHR 0x0A]"
    by (simp add: whitespace_only_def isspace_def)
  have v: "parse_text ''  a b  '' = ''a b''"
    by (simp add: parse_text_def strip_def lstrip_def rstrip_def isspace_def)
  from parse_text_idempotent [of "''Ensure X''"] t
    parse_text_idempotent [of "[CHR '' '', CHR 0x09, CHR 0x0A]"] w
    parse_text_idempotent [of "''  a b  ''"] v
  show ?thesis by simp
qed


section \<open>Flattening\<close>

lemma collect_append:
  "collect (ms @ ns) =
     (case collect ms of Inl e \<Rightarrow> Inl e | Inr items \<Rightarrow> extend_list items (collect ns))"
  by (induction ms) (auto simp: extend_list_def split: sum.splits)

lemma extend_collect_append:
  "extend_list acc (collect (ms @ ns)) =
     (case extend_list acc (collect ms) of Inl e \<Rightarrow> Inl e | Inr l \<Rightarrow> extend_list l (collect ns))"
  by (auto simp: collect_append extend_list_def split: sum.splits)

lemma str_and_literal [simp]: "str_and ''recommendations_for_nav_tree'' b = b"
  by (simp add: str_and_def)

lemma flatten_refines:
  "extract_subsections n acc = extend_list acc (collect (appended_nodes n))"
  "for_each ns acc = extend_list acc (collect (concat (map appended_nodes ns)))"
proof (induction n acc and ns acc rule: extract_subsections_for_each.induct)
  case (1 subs recs i t v s navtree_list)
  let ?n = "Node subs recs i t v s"
  let ?a = "concat (map appended_nodes (children subs))"
  let ?b = "concat (map appended_nodes (children recs))"
  have A: "(case subs of None \<Rightarrow> Inr navtree_list | Some xs \<Rightarrow> for_each xs navtree_list)
             = extend_list navtree_list (collect ?a)"
    using "1.IH"(1) by (cases subs) (simp_all add: extend_list_def)
  have B: "\<And>l1. extend_list navtree_list (collect ?a) = Inr l1 \<Longrightarrow>
             (case recs of None \<Rightarrow> Inr l1 | Some ys \<Rightarrow> for_each ys l1) = extend_list l1 (collect ?b)"
    using "1.IH"(2) A by (cases recs) (auto simp: extend_list_def)
  let ?own = "if subs = None then [?n] else []"
  have R: "extend_list navtree_list (collect (appended_nodes ?n)) =
             (case extend_list navtree_list (collect ?a) of
                Inl e \<Rightarrow> Inl e
              | Inr l1 \<Rightarrow> (case extend_list l1 (collect ?b) of
                           Inl e \<Rightarrow> Inl e
                         | Inr l2 \<Rightarrow> extend_list l2 (collect ?own)))"
    by (simp only: appended_nodes.simps extend_collect_append)
  have own: "\<And>l2. extend_list l2 (collect ?own) =
               (if \<not> str_and ''recommendations_for_nav_tree'' (subs \<noteq> None)
                then (case new_item ?n of Inl e \<Rightarrow> Inl e | Inr item \<Rightarrow> Inr (l2 @ [item]))
                else Inr l2)"
    by (simp add: extend_list_def split: sum.splits)
  show ?case
  proof (cases "extend_list navtree_list (collect ?a)")
    case (Inl e)
    then show ?thesis
      using A by (simp only: R extract_subsections.simps sum.case)
  next
    case l1: (Inr l1)
    show ?thesis
    proof (cases "extend_list l1 (collect ?b)")
      case (Inl e)
      then show ?thesis
        using A B [OF l1] l1 by (simp only: R extract_subsections.simps sum.case)
    next
      case l2: (Inr l2)
      show ?thesis
        using A B [OF l1] l1 l2 by (simp only: R own extract_subsections.simps sum.case)
    qed
  qed
next
  case (2 navtree_list)
  then show ?case by (simp add: extend_list_def)
next
  case (3 x xs navtree_list)
  then show ?case
    by (auto simp: extend_collect_append split: sum.splits)
qed

lemma appended_nodes_size: "m \<in> set (appended_nodes n) \<Longrightarrow> size m \<le> size n"
proof (induction n arbitrary: m rule: appended_nodes.induct)
  case (1 subs recs i t v s)
  let ?n = "Node subs recs i t v s"
  from "1.prems" consider
      (a) x where "x \<in> set (children subs)" "m \<in> set (appended_nodes x)"
    | (b) x where "x \<in> set (children recs)" "m \<in> set (appended_nodes x)"
    | (c) "m = ?n"
    by (auto split: if_splits)
  then show ?case
  proof cases
    case a
    from a have "size m \<le> size x" by (rule "1.IH"(1))
    moreover from a(1) have "size x \<le> size_option (size_list size) subs" by (rule size_children)
    ultimately show ?thesis by simp
  next
    case b
    from b have "size m \<le> size x" by (rule "1.IH"(2))
    moreover from b(1) have "size x \<le> size_option (size_list size) recs" by (rule size_children)
    ultimately show ?thesis by simp
  next
    case c
    then show ?thesis by simp
  qed
qed

lemma descendants_differ:
  "x \<in> set (children (subsections_for_nav_tree n)) \<or> x \<in> set (children (recommendations_for_nav_tree n))
   \<Longrightarrow> n \<notin> set (appended_nodes x)"
proof
  assume x: "x \<in> set (children (subsections_for_nav_tree n)) \<or> x \<in> set (children (recommendations_for_nav_tree n))"
  assume "n \<in> set (appended_nodes x)"
  then have le: "size n \<le> size x" by (rule appended_nodes_size)
  obtain subs recs i t v s where n: "n = Node subs recs i t v s" by (cases n)
  from x n have "size x \<le> size_option (size_list size) subs \<or> size x \<le> size_option (size_list size) recs"
    by (auto dest: size_children)
  with n have "size x < size n" by auto
  with le show False by simp
qed

lemma self_appended_iff:
  "n \<in> set (appended_nodes n) \<longleftrightarrow> subsections_for_nav_tree n = None"
proof -
  obtain subs recs i t v s where n: "n = Node subs recs i t v s" by (cases n)
  have "\<And>x. x \<in> set (children subs) \<Longrightarrow> n \<notin> set (appended_nodes x)"
    using descendants_differ [of _ n] n by simp
  moreover have "\<And>x. x \<in> set (children recs) \<Longrightarrow> n \<notin> set (appended_nodes x)"
    using descendants_differ [of _ n] n by simp
  ultimately show ?thesis
    using n by auto
qed

lemma and_then_simps [simp]:
  "and_then (Inl e) f = Inl e"
  "and_then (Inr x) f = f x"
  by (simp_all add: and_then_def)

lemma collect_list_all2:
  "collect ms = Inr items \<Longrightarrow> list_all2 (\<lambda>m item. new_item m = Inr item) ms items"
  by (induction ms arbitrary: items) (auto split: sum.splits)

lemma new_item_key:
  "new_item m = Inr item \<Longrightarrow>
   \<exists>v t. view_level m = Some v \<and> node_title m = Some t \<and> item_key item = py_str v @ '' '' @ py_str t"
  by (auto simp: new_item_def subscript_def and_then_def split: option.splits)

lemma str_nat_examples: "str_nat 7 = ''7''" "str_nat 3 = ''3''"
  by code_simp+

lemma new_item_example_leaf: "new_item example_leaf = Inr example_leaf_item"
  by (simp add: new_item_def example_leaf_def example_leaf_item_def subscript_def str_nat_examples)

lemma new_item_example_group: "new_item example_group = Inr example_group_item"
  by (simp add: new_item_def example_group_def example_group_item_def subscript_def str_nat_examples)

lemma extract_example_leaf: "extract_subsections example_leaf acc = Inr (acc @ [example_leaf_item])"
  using new_item_example_leaf by (simp add: example_leaf_def)

lemma extract_example_group:
  "extract_subsections example_group [] = Inr [example_leaf_item, example_group_item]"
  using new_item_example_group extract_example_leaf [of "[]"] by (simp add: example_group_def)

text \<open>
  C10. For every node the flattener appends an item for the node if and only if the node
  lacks the subsections key: the condition's string literal is true as a condition, so
  only the membership test of the subsections key decides. The output is the list given,
  then the items of the nodes below the subsections, then those of the nodes below the
  recommendations, then the node's own item if the key is missing (or the first
  \<open>KeyError\<close> on the way). So a node with recommendations and without the subsections
  key is gone through and then appended itself, after all the nodes below it.
\<close>

theorem guard_tests_subsections_key_only:
  "(\<not> str_and ''recommendations_for_nav_tree'' (subsections_for_nav_tree n \<noteq> None))
     = (subsections_for_nav_tree n = None) \<and>
   extract_subsections n acc = extend_list acc (collect (appended_nodes n)) \<and>
   (n \<in> set (appended_nodes n) \<longleftrightarrow> subsections_for_nav_tree n = None) \<and>
   (subsections_for_nav_tree n = None \<and> recommendations_for_nav_tree n = Some ys \<longrightarrow>
      extract_subsections n acc =
        and_then (for_each ys acc) (\<lambda>l. and_then (new_item n) (\<lambda>item. Inr (l @ [item]))))"
proof -
  have "subsections_for_nav_tree n = None \<and> recommendations_for_nav_tree n = Some ys \<longrightarrow>
      extract_subsections n acc =
        and_then (for_each ys acc) (\<lambda>l. and_then (new_item n) (\<lambda>item. Inr (l @ [item])))"
    by (cases n) (simp add: and_then_def split: sum.splits)
  then show ?thesis
    by (simp add: flatten_refines(1) self_appended_iff)
qed

theorem guard_tests_subsections_key_only_witness:
  "subsections_for_nav_tree example_group = None \<and>
   recommendations_for_nav_tree example_group = Some [example_leaf] \<and>
   example_group \<in> set (appended_nodes example_group) \<and>
   extract_subsections example_group [] =
     and_then (for_each [example_leaf] [])
       (\<lambda>l. and_then (new_item example_group) (\<lambda>item. Inr (l @ [item]))) \<and>
   extract_subsections example_group [] = Inr [example_leaf_item, example_group_item]"
proof -
  have a: "subsections_for_nav_tree example_group = None"
    and b: "recommendations_for_nav_tree example_group = Some [example_leaf]"
    by (simp_all add: example_group_def)
  note t = guard_tests_subsections_key_only [of example_group "[]" "[example_leaf]"]
  from t have c: "example_group \<in> set (appended_nodes example_group)"
    using a by blast
  from t have d: "extract_subsections example_group [] =
     and_then (for_each [example_leaf] [])
       (\<lambda>l. and_then (new_item example_group) (\<lambda>item. Inr (l @ [item])))"
    using a b by blast
  show ?thesis
    by (intro conjI) (rule a b c d extract_example_group)+
qed


text \<open>
  C9. Every item the flattener appends has as its key the node's \<open>view_level\<close>, one
  space, and the node's title; for \<open>view_level\<close> "1.1" and title "Ensure X" the key is
  "1.1 Ensure X".
\<close>

theorem key_construction:
  assumes "extract_subsections n acc = Inr out"
  shows "\<exists>items. out = acc @ items \<and>
           list_all2 (\<lambda>m item. \<exists>v t. view_level m = Some v \<and> node_title m = Some t \<and>
                        item_key item = py_str v @ '' '' @ py_str t)
             (appended_nodes n) items"
proof -
  from assms have "extend_list acc (collect (appended_nodes n)) = Inr out"
    by (simp add: flatten_refines(1))
  then obtain items where c: "collect (appended_nodes n) = Inr items" and o: "out = acc @ items"
    by (auto simp: extend_list_def split: sum.splits)
  from c have "list_all2 (\<lambda>m item. new_item m = Inr item) (appended_nodes n) items"
    by (rule collect_list_all2)
  then have "list_all2 (\<lambda>m item. \<exists>v t. view_level m = Some v \<and> node_title m = Some t \<and>
                        item_key item = py_str v @ '' '' @ py_str t) (appended_nodes n) items"
    by (rule list_all2_mono) (rule new_item_key)
  with o show ?thesis by blast
qed

theorem key_construction_witness:
  "extract_subsections example_leaf [] = Inr [example_leaf_item] \<and>
   view_level example_leaf = Some (Str ''1.1'') \<and>
   node_title example_leaf = Some (Str ''Ensure X'') \<and>
   item_key example_leaf_item = ''1.1 Ensure X'' \<and>
   (\<exists>items. [example_leaf_item] = [] @ items \<and>
      list_all2 (\<lambda>m item. \<exists>v t. view_level m = Some v \<and> node_title m = Some t \<and>
                   item_key item = py_str v @ '' '' @ py_str t)
        (appended_nodes example_leaf) items)"
proof -
  have h: "extract_subsections example_leaf [] = Inr [example_leaf_item]"
    using extract_example_leaf [of "[]"] by simp
  from key_construction [OF h] h show ?thesis
    by (simp add: example_leaf_def example_leaf_item_def)
qed


text \<open>
  On a tree whose groups all have the subsections key the items appended are those of
  the leaves, depth first.
\<close>

lemma appended_nodes_are_leaves:
  "groups_have_subsections n \<Longrightarrow> appended_nodes n = dfs_leaves n"
proof (induction n rule: appended_nodes.induct)
  case (1 subs recs i t v s)
  from "1.prems" have a: "map appended_nodes (children subs) = map dfs_leaves (children subs)"
    by (intro map_cong refl "1.IH"(1)) simp_all
  from "1.prems" have b: "map appended_nodes (children recs) = map dfs_leaves (children recs)"
    by (intro map_cong refl "1.IH"(2)) simp_all
  show ?case
  proof (cases subs)
    case None
    with "1.prems" have "recs = None" by simp
    with None show ?thesis by simp
  next
    case (Some xs)
    then have "appended_nodes (Node subs recs i t v s) =
        concat (map appended_nodes (children subs)) @ concat (map appended_nodes (children recs))"
      by simp
    also have "\<dots> = concat (map dfs_leaves (children subs)) @ concat (map dfs_leaves (children recs))"
      by (simp only: a b)
    also have "\<dots> = dfs_leaves (Node subs recs i t v s)"
      using Some by simp
    finally show ?thesis .
  qed
qed

lemma flatten_leaves_when_groups_have_subsections:
  "groups_have_subsections n \<Longrightarrow>
   extract_subsections n acc = extend_list acc (collect (dfs_leaves n))"
  by (simp add: flatten_refines(1) appended_nodes_are_leaves)

text \<open>
  C1. The flattener's output is to hold exactly the leaves, depth first, and no internal
  node. On a group that has the recommendations key and no subsections key the source
  appends the group itself after its recommendation: the output has two items where the
  tree has one leaf.
\<close>

theorem flattener_emits_recommendation_group:
  "extract_subsections example_group [] = Inr [example_leaf_item, example_group_item] \<and>
   recommendations_for_nav_tree example_group = Some [example_leaf] \<and>
   \<not> is_leaf example_group \<and>
   dfs_leaves example_group = [example_leaf] \<and>
   collect (dfs_leaves example_group) = Inr [example_leaf_item]"
proof -
  have "dfs_leaves example_leaf = [example_leaf]"
    by (simp add: example_leaf_def)
  then have "dfs_leaves example_group = [example_leaf]"
    by (simp add: example_group_def)
  then show ?thesis
    using extract_example_group new_item_example_leaf
    by (simp add: is_leaf_def) (simp add: example_group_def)
qed

section \<open>The detail fetcher and the text extractor\<close>

lemma extract_text_cases:
  "extract_text soup locator =
     (case soup locator of None \<Rightarrow> Inl (AttributeError ''text'') | Some text \<Rightarrow> Inr (strip text))"
  by (simp add: extract_text_def parse_text_strip split: option.splits)

lemma strip_decompose:
  "\<exists>pre post. text = pre @ strip text @ post \<and> whitespace_only pre \<and> whitespace_only post"
proof -
  let ?pre = "takeWhile isspace text"
  let ?post = "rev (takeWhile isspace (rev (lstrip text)))"
  have "rev (takeWhile isspace (rev (lstrip text)) @ dropWhile isspace (rev (lstrip text))) = lstrip text"
    by (simp only: takeWhile_dropWhile_id rev_rev_ident)
  then have "lstrip text = strip text @ ?post"
    by (simp only: rev_append rstrip_def strip_def)
  moreover have "text = ?pre @ lstrip text"
    by (simp add: lstrip_def)
  ultimately have "text = ?pre @ strip text @ ?post" by simp
  moreover have "whitespace_only ?pre"
    by (auto simp: whitespace_only_def list_all_iff dest: set_takeWhileD)
  moreover have "whitespace_only ?post"
    by (auto simp: whitespace_only_def list_all_iff dest: set_takeWhileD)
  ultimately show ?thesis by blast
qed

lemma and_then_Inr_iff: "and_then r f = Inr y \<longleftrightarrow> (\<exists>x. r = Inr x \<and> f x = Inr y)"
  by (cases r) simp_all

lemma extract_text_Inr_iff:
  "extract_text soup locator = Inr field \<longleftrightarrow> (\<exists>text. soup locator = Some text \<and> field = strip text)"
  by (auto simp: extract_text_cases split: option.splits)

lemma fetch_control_get_fails:
  "session_get (item_url control) = Inl e \<Longrightarrow> fetch_control session_get control = Inl e"
  by (simp add: fetch_control_def)

lemma fetch_control_missing:
  assumes "session_get (item_url control) = Inr soup" and "locator \<in> set locators"
    and "soup locator = None"
  shows "fetch_control session_get control = Inl (AttributeError ''text'')"
  using assms
  by (auto simp: fetch_control_def locators_def extract_text_cases and_then_def
      split: option.splits)

lemma fetch_control_fields:
  assumes "fetch_control session_get control = Inr r"
  shows "\<exists>soup. session_get (item_url control) = Inr soup \<and>
           list_all2 (\<lambda>locator field. \<exists>text. soup locator = Some text \<and> field = strip text \<and>
                        (field = [] \<longleftrightarrow> whitespace_only text))
             locators
             [assessment_status r, description r, rationale r, impact r, audit r,
              remediation r, default_value r, references r] \<and>
           ctl_id r = item_id control \<and> ctl_key r = item_key control \<and>
           ctl_title r = item_title control"
proof -
  from assms obtain soup f1 f2 f3 f4 f5 f6 f7 f8 where
    g: "session_get (item_url control) = Inr soup"
    and f: "extract_text soup (''span'', ''automated_scoring-recomendtation-data'') = Inr f1"
      "extract_text soup (''div'', ''description-recomendtation-data'') = Inr f2"
      "extract_text soup (''div'', ''rationale_statement-recomendtation-data'') = Inr f3"
      "extract_text soup (''div'', ''impact_statement-recomendtation-data'') = Inr f4"
      "extract_text soup (''div'', ''audit_procedure-recomendtation-data'') = Inr f5"
      "extract_text soup (''div'', ''remediation_procedure-recomendtation-data'') = Inr f6"
      "extract_text soup (''div'', ''default_value-recomendtation-data'') = Inr f7"
      "extract_text soup (''div'', ''references-recomendtation-data'') = Inr f8"
    and r: "r = \<lparr> ctl_id = item_id control, ctl_key = item_key control,
             ctl_title = item_title control,
             assessment_status = f1, description = f2, rationale = f3, impact = f4,
             audit = f5, remediation = f6, default_value = f7, references = f8 \<rparr>"
    unfolding fetch_control_def and_then_Inr_iff by blast
  have P: "\<And>locator field. extract_text soup locator = Inr field \<Longrightarrow>
             \<exists>text. soup locator = Some text \<and> field = strip text \<and>
                (field = [] \<longleftrightarrow> whitespace_only text)"
    by (auto simp: extract_text_Inr_iff strip_empty_iff)
  have "list_all2 (\<lambda>locator field. \<exists>text. soup locator = Some text \<and> field = strip text \<and>
                        (field = [] \<longleftrightarrow> whitespace_only text))
             locators [f1, f2, f3, f4, f5, f6, f7, f8]"
    unfolding locators_def
    by (intro list.rel_intros P f)
  with g r show ?thesis by simp
qed

lemma parse_text_example: "parse_text ''  Automated  '' = ''Automated''"
  by (simp add: parse_text_def strip_def lstrip_def rstrip_def isspace_def)

lemma extract_text_example: "extract_text example_page locator = Inr ''Automated''"
  by (simp add: extract_text_def example_page_def parse_text_example)

lemma fetch_example: "fetch_control example_get control = Inr (example_record control)"
  by (simp add: fetch_control_def example_get_def extract_text_example example_record_def)

lemma fetch_failing: "fetch_control failing_get control = Inl (RequestException ''timeout'')"
  by (simp add: fetch_control_def failing_get_def)

lemma fetch_flaky_A: "fetch_control flaky_get example_leaf_item = Inr (example_record example_leaf_item)"
  by (simp add: fetch_control_def flaky_get_def extract_text_example example_record_def
      example_leaf_item_def example_item_B_def)

lemma fetch_flaky_B: "fetch_control flaky_get example_item_B = Inl (AttributeError ''text'')"
  by (simp add: fetch_control_def flaky_get_def extract_text_def empty_page_def)


text \<open>
  C5. The claim has the text extractor return the empty string for an absent element.
  The source reads \<open>.text\<close> of what \<open>find\<close> returns, so an absent element raises
  \<open>AttributeError\<close>: on a page without the element the extraction is not the empty
  string.
\<close>

theorem absent_element_raises:
  "empty_page (''div'', ''description-recomendtation-data'') = None \<and>
   extract_text empty_page (''div'', ''description-recomendtation-data'') \<noteq> Inr [] \<and>
   extract_text empty_page (''div'', ''description-recomendtation-data'')
     = Inl (AttributeError ''text'')"
  by (simp add: extract_text_def empty_page_def)


text \<open>
  C5, as the source has it. For an element that is present the text extractor returns
  its text without the whitespace at both ends, which is the empty string when the text
  is whitespace only; for an absent element it raises \<open>AttributeError\<close> instead of
  returning a string.
\<close>

theorem text_extractor:
  "(soup locator = Some text \<longrightarrow>
      extract_text soup locator = Inr (strip text) \<and>
      trimmed (strip text) \<and>
      (\<exists>pre post. text = pre @ strip text @ post \<and> whitespace_only pre \<and> whitespace_only post) \<and>
      (whitespace_only text \<longrightarrow> extract_text soup locator = Inr [])) \<and>
   (soup locator = None \<longrightarrow> extract_text soup locator = Inl (AttributeError ''text''))"
  using strip_decompose [of "text"] strip_is_trimmed [of "text"] strip_empty_iff [of "text"]
  by (simp add: extract_text_cases)

theorem text_extractor_witness:
  "example_page (''div'', ''description-recomendtation-data'') = Some ''  Automated  '' \<and>
   extract_text example_page (''div'', ''description-recomendtation-data'') = Inr ''Automated'' \<and>
   blank_page (''div'', ''impact_statement-recomendtation-data'') = Some [CHR '' '', CHR 0x0A] \<and>
   whitespace_only [CHR '' '', CHR 0x0A] \<and>
   extract_text blank_page (''div'', ''impact_statement-recomendtation-data'') = Inr [] \<and>
   empty_page (''div'', ''description-recomendtation-data'') = None \<and>
   extract_text empty_page (''div'', ''description-recomendtation-data'')
      = Inl (AttributeError ''text'')"
proof -
  have a: "example_page (''div'', ''description-recomendtation-data'') = Some ''  Automated  ''"
    by (simp add: example_page_def)
  have b: "strip ''  Automated  '' = ''Automated''"
    by (simp add: strip_def lstrip_def rstrip_def isspace_def)
  have c: "blank_page (''div'', ''impact_statement-recomendtation-data'') = Some [CHR '' '', CHR 0x0A]"
    by (simp add: blank_page_def)
  have d: "whitespace_only [CHR '' '', CHR 0x0A]"
    by (simp add: whitespace_only_def isspace_def)
  have e: "empty_page (''div'', ''description-recomendtation-data'') = None"
    by (simp add: empty_page_def)
  from text_extractor [of example_page "(''div'', ''description-recomendtation-data'')" "''  Automated  ''"] a
  have "extract_text example_page (''div'', ''description-recomendtation-data'') = Inr (strip ''  Automated  '')"
    by blast
  with b have 1: "extract_text example_page (''div'', ''description-recomendtation-data'') = Inr ''Automated''"
    by simp
  from text_extractor [of blank_page "(''div'', ''impact_statement-recomendtation-data'')"
      "[CHR '' '', CHR 0x0A]"] c d
  have 2: "extract_text blank_page (''div'', ''impact_statement-recomendtation-data'') = Inr []"
    by blast
  from text_extractor [of empty_page "(''div'', ''description-recomendtation-data'')"] e
  have 3: "extract_text empty_page (''div'', ''description-recomendtation-data'')
      = Inl (AttributeError ''text'')"
    by blast
  show ?thesis
    by (intro conjI) (rule a c d e 1 2 3)+
qed


section \<open>The run\<close>

lemma dict_set_fresh: "k \<notin> set (dict_keys d) \<Longrightarrow> dict_set d k v = d @ [(k, v)]"
  by (induction d) (auto simp: dict_keys_def)



lemma main_loop_files: "files (final (main_loop get n i cs st)) = files st"
  by (induction cs arbitrary: i st) (auto simp: print_def split: sum.splits)

lemma main_loop_total:
  "bd_total (benchmark_data (final (main_loop get n i cs st))) = bd_total (benchmark_data st)"
  by (induction cs arbitrary: i st) (auto simp: print_def split: sum.splits)

lemma main_loop_fails:
  "c \<in> set cs \<Longrightarrow> fetch_control get c = Inl e \<Longrightarrow> \<exists>st'. main_loop get n i cs st = SystemExit 1 st'"
  by (induction cs arbitrary: i st) (auto split: sum.splits)

lemma main_loop_all_succeed:
  assumes "\<forall>c \<in> set cs. \<exists>r. fetch_control get c = Inr r"
    and "distinct (map item_id cs)"
    and "set (map item_id cs) \<inter> set (dict_keys (controls (benchmark_data st))) = {}"
  shows "main_loop get n i cs st =
           Returned (st\<lparr>benchmark_data := (benchmark_data st)
                          \<lparr>controls := controls (benchmark_data st) @
                               map (\<lambda>c. (item_id c, projr (fetch_control get c))) cs\<rparr>,
                        stdout := stdout st @ map (\<lambda>k. Scraping (Suc (i + k)) n) [0 ..< length cs]\<rparr>)"
  using assms
proof (induction cs arbitrary: i st)
  case Nil
  then show ?case by simp
next
  case (Cons c cs)
  from Cons.prems(1) obtain r where r: "fetch_control get c = Inr r" by auto
  let ?st1 = "print (Scraping (Suc i) n)
               (st\<lparr>benchmark_data := (benchmark_data st)
                    \<lparr>controls := dict_set (controls (benchmark_data st)) (item_id c) r\<rparr>\<rparr>)"
  from Cons.prems(3) have fresh: "item_id c \<notin> set (dict_keys (controls (benchmark_data st)))"
    by auto
  have c1: "controls (benchmark_data ?st1) = controls (benchmark_data st) @ [(item_id c, r)]"
    using fresh by (simp add: print_def dict_set_fresh)
  have "set (map item_id cs) \<inter> set (dict_keys (controls (benchmark_data ?st1))) = {}"
    using Cons.prems(2,3) by (auto simp: c1 dict_keys_def)
  moreover have "\<forall>c \<in> set cs. \<exists>r. fetch_control get c = Inr r" "distinct (map item_id cs)"
    using Cons.prems(1,2) by simp_all
  ultimately have "main_loop get n (Suc i) cs ?st1 =
      Returned (?st1\<lparr>benchmark_data := (benchmark_data ?st1)
                          \<lparr>controls := controls (benchmark_data ?st1) @
                               map (\<lambda>c. (item_id c, projr (fetch_control get c))) cs\<rparr>,
                        stdout := stdout ?st1 @ map (\<lambda>k. Scraping (Suc (Suc i + k)) n) [0 ..< length cs]\<rparr>)"
    by (intro Cons.IH)
  then show ?case
    using r c1 by (simp add: print_def map_upt_Suc del: upt_Suc)
qed

lemma main_loop_stdout:
  "stdout (final (main_loop get n i cs st)) =
     stdout st @
     map (\<lambda>k. Scraping (Suc (i + k)) n) [0 ..< length (takeWhile (succeeds get) cs)] @
     failure_report get (dropWhile (succeeds get) cs)"
proof (induction cs arbitrary: i st)
  case Nil
  then show ?case by (simp add: failure_report_def)
next
  case (Cons c cs)
  show ?case
  proof (cases "fetch_control get c")
    case (Inl e)
    then show ?thesis by (simp add: succeeds_def failure_report_def print_def)
  next
    case (Inr r)
    then have s: "succeeds get c" by (simp add: succeeds_def)
    from Inr show ?thesis
      by (simp add: Cons.IH s print_def map_upt_Suc del: upt_Suc)
  qed
qed

lemma progress_counts_append: "progress_counts (xs @ ys) = progress_counts xs @ progress_counts ys"
  by (induction xs rule: progress_counts.induct) simp_all

lemma progress_counts_Scraping: "progress_counts (map (\<lambda>k. Scraping k n) ks) = ks"
  by (induction ks) simp_all

lemma progress_counts_failure_report: "progress_counts (failure_report get cs) = []"
  by (simp add: failure_report_def split: list.splits sum.splits)

lemma save_data: "benchmark_data (final (save can_open st)) = benchmark_data st"
  by (simp add: save_def print_def Let_def)

lemma save_files_closed: "\<not> can_open (output_file st) \<Longrightarrow> files (final (save can_open st)) = files st"
  by (simp add: save_def print_def Let_def)


lemma fetch_control_present:
  assumes g: "session_get (item_url control) = Inr soup"
    and p: "\<forall>locator \<in> set locators. soup locator \<noteq> None"
  shows "\<exists>r. fetch_control session_get control = Inr r"
proof -
  from p obtain t1 t2 t3 t4 t5 t6 t7 t8 where
    "soup (''span'', ''automated_scoring-recomendtation-data'') = Some t1"
    "soup (''div'', ''description-recomendtation-data'') = Some t2"
    "soup (''div'', ''rationale_statement-recomendtation-data'') = Some t3"
    "soup (''div'', ''impact_statement-recomendtation-data'') = Some t4"
    "soup (''div'', ''audit_procedure-recomendtation-data'') = Some t5"
    "soup (''div'', ''remediation_procedure-recomendtation-data'') = Some t6"
    "soup (''div'', ''default_value-recomendtation-data'') = Some t7"
    "soup (''div'', ''references-recomendtation-data'') = Some t8"
    unfolding locators_def by (simp only: list.set ball_simps) blast
  with g show ?thesis
    by (simp add: fetch_control_def extract_text_cases)
qed

lemma fetch_blank:
  "fetch_control blank_get control =
     Inr \<lparr> ctl_id = item_id control, ctl_key = item_key control, ctl_title = item_title control,
           assessment_status = [], description = [], rationale = [], impact = [], audit = [],
           remediation = [], default_value = [], references = [] \<rparr>"
proof -
  have "parse_text [CHR '' '', CHR 0x0A] = []"
    by (simp add: parse_text_def strip_def lstrip_def rstrip_def isspace_def)
  then show ?thesis
    by (simp add: fetch_control_def blank_get_def blank_page_def extract_text_def)
qed

lemma first_failure_stdout:
  assumes ok: "\<forall>c \<in> set before. \<exists>r. fetch_control session_get c = Inr r"
    and bad: "fetch_control session_get control = Inl e"
  shows "stdout (final (main_loop session_get n 0 (before @ control # rest) st)) =
           stdout st @ map (\<lambda>k. Scraping (Suc k) n) [0 ..< length before] @
           [Error_scraping (item_id control) e]"
proof -
  from ok have s: "\<forall>c \<in> set before. succeeds session_get c"
    by (auto simp: succeeds_def)
  from bad have f: "\<not> succeeds session_get control"
    by (simp add: succeeds_def)
  from s f have t: "takeWhile (succeeds session_get) (before @ control # rest) = before"
    by (simp add: takeWhile_append2)
  from s f have d: "dropWhile (succeeds session_get) (before @ control # rest) = control # rest"
    by (simp add: dropWhile_append2)
  from bad have r: "failure_report session_get (control # rest) = [Error_scraping (item_id control) e]"
    by (simp add: failure_report_def)
  show ?thesis
    using main_loop_stdout [of session_get n 0 "before @ control # rest" st]
    by (simp only: t d r) simp
qed


text \<open>
  C4. The claim has every failing fetch surface with its error and the item's id. The id
  is attached by the loop in \<open>main\<close>, which exits at the first failure it meets: when
  the fetches of two items fail, only the one that completes first is reported, and the
  other item's id appears nowhere.
\<close>

theorem later_failure_not_reported:
  "fetch_control failing_get example_leaf_item = Inl (RequestException ''timeout'') \<and>
   fetch_control failing_get example_item_B = Inl (RequestException ''timeout'') \<and>
   stdout (final (main_from failing_get writable [example_leaf_item, example_item_B]
                    [example_leaf_item, example_item_B] example_scraper)) =
     [Error_scraping (Str ''A'') (RequestException ''timeout'')]"
  by (simp add: fetch_failing main_from_def print_def example_scraper_def init_def
      example_leaf_item_def)


text \<open>
  C4, as the source has it. A fetch that meets a network failure raises that error, and a
  fetch whose page lacks any of the eight elements raises \<open>AttributeError\<close>; no record
  is returned in either case. With all eight elements present a record is returned, and
  every field of a returned record is the stripped text of its element, empty exactly
  for whitespace-only text. The run reports the first failure in the order of completion,
  once, after the progress lines of the fetches that succeeded before it, with the
  item's id and the error; it then exits with status 1 and writes no file, so a failure
  of an item that completes later is not reported.
\<close>

theorem first_failure_reported:
  "(session_get (item_url control) = Inl e \<longrightarrow> fetch_control session_get control = Inl e) \<and>
   (session_get (item_url control) = Inr soup \<and> (\<exists>locator \<in> set locators. soup locator = None) \<longrightarrow>
      fetch_control session_get control = Inl (AttributeError ''text'')) \<and>
   (session_get (item_url control) = Inr soup \<and> (\<forall>locator \<in> set locators. soup locator \<noteq> None) \<longrightarrow>
      (\<exists>r. fetch_control session_get control = Inr r)) \<and>
   (fetch_control session_get control = Inr r \<longrightarrow>
      (\<exists>page. session_get (item_url control) = Inr page \<and>
         list_all2 (\<lambda>locator field. \<exists>text. page locator = Some text \<and> field = strip text \<and>
                      (field = [] \<longleftrightarrow> whitespace_only text))
           locators
           [assessment_status r, description r, rationale r, impact r, audit r,
            remediation r, default_value r, references r] \<and>
         ctl_id r = item_id control \<and> ctl_key r = item_key control \<and>
         ctl_title r = item_title control)) \<and>
   ((\<forall>c \<in> set before. \<exists>r. fetch_control session_get c = Inr r) \<and>
    fetch_control session_get control = Inl e \<longrightarrow>
      stdout (final (main_loop session_get n 0 (before @ control # rest) st)) =
        stdout st @ map (\<lambda>k. Scraping (Suc k) n) [0 ..< length before] @
        [Error_scraping (item_id control) e] \<and>
      exit_status (main_loop session_get n 0 (before @ control # rest) st) = 1 \<and>
      (0 < num_threads st \<longrightarrow>
         stdout (final (main_from session_get can_open navtree_parsed (before @ control # rest) st)) =
           stdout st @ map (\<lambda>k. Scraping (Suc k) (length navtree_parsed)) [0 ..< length before] @
           [Error_scraping (item_id control) e] \<and>
         exit_status (main_from session_get can_open navtree_parsed (before @ control # rest) st) = 1 \<and>
         files (final (main_from session_get can_open navtree_parsed (before @ control # rest) st))
           = files st))"
proof (intro conjI impI)
  assume "session_get (item_url control) = Inl e"
  then show "fetch_control session_get control = Inl e" by (rule fetch_control_get_fails)
next
  assume "session_get (item_url control) = Inr soup \<and> (\<exists>locator \<in> set locators. soup locator = None)"
  then show "fetch_control session_get control = Inl (AttributeError ''text'')"
    using fetch_control_missing by blast
next
  assume "session_get (item_url control) = Inr soup \<and> (\<forall>locator \<in> set locators. soup locator \<noteq> None)"
  then show "\<exists>r. fetch_control session_get control = Inr r"
    using fetch_control_present by blast
next
  assume "fetch_control session_get control = Inr r"
  from fetch_control_fields [OF this]
  show "\<exists>page. session_get (item_url control) = Inr page \<and>
         list_all2 (\<lambda>locator field. \<exists>text. page locator = Some text \<and> field = strip text \<and>
                      (field = [] \<longleftrightarrow> whitespace_only text))
           locators
           [assessment_status r, description r, rationale r, impact r, audit r,
            remediation r, default_value r, references r] \<and>
         ctl_id r = item_id control \<and> ctl_key r = item_key control \<and>
         ctl_title r = item_title control"
    by blast
next
  assume h: "(\<forall>c \<in> set before. \<exists>r. fetch_control session_get c = Inr r) \<and>
    fetch_control session_get control = Inl e"
  then show "stdout (final (main_loop session_get n 0 (before @ control # rest) st)) =
        stdout st @ map (\<lambda>k. Scraping (Suc k) n) [0 ..< length before] @
        [Error_scraping (item_id control) e]"
    using first_failure_stdout by blast
next
  assume h: "(\<forall>c \<in> set before. \<exists>r. fetch_control session_get c = Inr r) \<and>
    fetch_control session_get control = Inl e"
  then obtain st' where "main_loop session_get n 0 (before @ control # rest) st = SystemExit 1 st'"
    using main_loop_fails [of control "before @ control # rest" session_get e n 0 st] by auto
  then show "exit_status (main_loop session_get n 0 (before @ control # rest) st) = 1" by simp
next
  assume h: "(\<forall>c \<in> set before. \<exists>r. fetch_control session_get c = Inr r) \<and>
    fetch_control session_get control = Inl e" and th: "0 < num_threads st"
  from h obtain st' where
    l: "main_loop session_get (length navtree_parsed) 0 (before @ control # rest) st = SystemExit 1 st'"
    using main_loop_fails [of control "before @ control # rest" session_get e "length navtree_parsed" 0 st]
    by auto
  with th have m: "main_from session_get can_open navtree_parsed (before @ control # rest) st
      = main_loop session_get (length navtree_parsed) 0 (before @ control # rest) st"
    by (simp add: main_from_def)
  from h show "stdout (final (main_from session_get can_open navtree_parsed (before @ control # rest) st)) =
           stdout st @ map (\<lambda>k. Scraping (Suc k) (length navtree_parsed)) [0 ..< length before] @
           [Error_scraping (item_id control) e]"
    unfolding m using first_failure_stdout by blast
  from l show "exit_status (main_from session_get can_open navtree_parsed (before @ control # rest) st) = 1"
    unfolding m by simp
  show "files (final (main_from session_get can_open navtree_parsed (before @ control # rest) st))
           = files st"
    unfolding m by (rule main_loop_files)
qed

theorem first_failure_reported_witness:
  "failing_get (item_url example_leaf_item) = Inl (RequestException ''timeout'') \<and>
   fetch_control failing_get example_leaf_item = Inl (RequestException ''timeout'') \<and>
   flaky_get (item_url example_item_B) = Inr empty_page \<and>
   list_ex (\<lambda>locator. empty_page locator = None) locators \<and>
   fetch_control flaky_get example_item_B = Inl (AttributeError ''text'') \<and>
   example_get (item_url example_leaf_item) = Inr example_page \<and>
   list_all (\<lambda>locator. example_page locator \<noteq> None) locators \<and>
   fetch_control example_get example_leaf_item = Inr (example_record example_leaf_item) \<and>
   blank_get (item_url example_leaf_item) = Inr blank_page \<and>
   list_all (\<lambda>locator. blank_page locator = Some [CHR '' '', CHR 0x0A]) locators \<and>
   (\<exists>r. fetch_control blank_get example_leaf_item = Inr r \<and>
      [assessment_status r, description r, rationale r, impact r, audit r,
       remediation r, default_value r, references r] = [[], [], [], [], [], [], [], []]) \<and>
   fetch_control flaky_get example_leaf_item = Inr (example_record example_leaf_item) \<and>
   0 < num_threads example_scraper \<and>
   stdout (final (main_from flaky_get writable [example_leaf_item, example_item_B]
                    [example_leaf_item, example_item_B] example_scraper)) =
     [Scraping 1 2, Error_scraping (Str ''B'') (AttributeError ''text'')] \<and>
   exit_status (main_from flaky_get writable [example_leaf_item, example_item_B]
                  [example_leaf_item, example_item_B] example_scraper) = 1 \<and>
   files (final (main_from flaky_get writable [example_leaf_item, example_item_B]
                   [example_leaf_item, example_item_B] example_scraper)) = []"
proof -
  have a: "failing_get (item_url example_leaf_item) = Inl (RequestException ''timeout'')"
    by (simp add: failing_get_def)
  have b: "flaky_get (item_url example_item_B) = Inr empty_page"
    by (simp add: flaky_get_def)
  have c: "list_ex (\<lambda>locator. empty_page locator = None) locators"
    by (simp add: empty_page_def locators_def)
  then have c2: "\<exists>locator \<in> set locators. empty_page locator = None"
    by (simp add: list_ex_iff)
  have d: "example_get (item_url example_leaf_item) = Inr example_page"
    by (simp add: example_get_def)
  have e: "list_all (\<lambda>locator. example_page locator \<noteq> None) locators"
    by (simp add: example_page_def locators_def)
  then have e2: "\<forall>locator \<in> set locators. example_page locator \<noteq> None"
    by (simp add: list_all_iff)
  have f: "blank_get (item_url example_leaf_item) = Inr blank_page"
    by (simp add: blank_get_def)
  have g: "list_all (\<lambda>locator. blank_page locator = Some [CHR '' '', CHR 0x0A]) locators"
    by (simp add: blank_page_def locators_def)
  then have g2: "\<forall>locator \<in> set locators. blank_page locator \<noteq> None"
    by (simp add: list_all_iff)
  have w: "whitespace_only [CHR '' '', CHR 0x0A]"
    by (simp add: whitespace_only_def isspace_def)
  have h: "0 < num_threads example_scraper"
    by (simp add: example_scraper_def init_def)
  have o: "stdout example_scraper = []" "files example_scraper = []"
    by (simp_all add: example_scraper_def init_def)
  have i: "item_id example_item_B = Str ''B''"
    by (simp add: example_item_B_def)
  note t1 = first_failure_reported [of failing_get example_leaf_item "RequestException ''timeout''"]
  from t1 a have 1: "fetch_control failing_get example_leaf_item = Inl (RequestException ''timeout'')"
    by blast
  note t2 = first_failure_reported [of flaky_get example_item_B "AttributeError ''text''" empty_page _
      "[example_leaf_item]" 2 "[]" example_scraper writable "[example_leaf_item, example_item_B]"]
  from t2 b c2 have 2: "fetch_control flaky_get example_item_B = Inl (AttributeError ''text'')"
    by blast
  note t3 = first_failure_reported [of example_get example_leaf_item _ example_page
      "example_record example_leaf_item"]
  from t3 d e2 have 3: "\<exists>r. fetch_control example_get example_leaf_item = Inr r"
    by blast
  note t4 = first_failure_reported [of blank_get example_leaf_item _ blank_page]
  from t4 f g2 obtain r where r: "fetch_control blank_get example_leaf_item = Inr r"
    by blast
  from first_failure_reported [of blank_get example_leaf_item _ _ r] r f
  have "list_all2 (\<lambda>locator field. \<exists>text. blank_page locator = Some text \<and> field = strip text \<and>
                      (field = [] \<longleftrightarrow> whitespace_only text))
           locators
           [assessment_status r, description r, rationale r, impact r, audit r,
            remediation r, default_value r, references r]"
    by auto
  then have "[assessment_status r, description r, rationale r, impact r, audit r,
       remediation r, default_value r, references r] = [[], [], [], [], [], [], [], []]"
    using w strip_empty_iff [of "[CHR '' '', CHR 0x0A]"] by (simp add: locators_def blank_page_def)
  with r have 4: "\<exists>r. fetch_control blank_get example_leaf_item = Inr r \<and>
      [assessment_status r, description r, rationale r, impact r, audit r,
       remediation r, default_value r, references r] = [[], [], [], [], [], [], [], []]"
    by blast
  have ok: "\<forall>c \<in> set [example_leaf_item]. \<exists>r. fetch_control flaky_get c = Inr r"
    by (simp add: fetch_flaky_A)
  from t2 ok 2 h
  have 5: "stdout (final (main_from flaky_get writable [example_leaf_item, example_item_B]
                    ([example_leaf_item] @ example_item_B # []) example_scraper)) =
           stdout example_scraper @
           map (\<lambda>k. Scraping (Suc k) (length [example_leaf_item, example_item_B]))
             [0 ..< length [example_leaf_item]] @
           [Error_scraping (item_id example_item_B) (AttributeError ''text'')]"
    and 6: "exit_status (main_from flaky_get writable [example_leaf_item, example_item_B]
                  ([example_leaf_item] @ example_item_B # []) example_scraper) = 1"
    and 7: "files (final (main_from flaky_get writable [example_leaf_item, example_item_B]
                   ([example_leaf_item] @ example_item_B # []) example_scraper)) = files example_scraper"
    by blast+
  from 5 have s5: "stdout (final (main_from flaky_get writable [example_leaf_item, example_item_B]
                    [example_leaf_item, example_item_B] example_scraper)) =
     [Scraping 1 2, Error_scraping (Str ''B'') (AttributeError ''text'')]"
    by (simp add: o i)
  from 6 have s6: "exit_status (main_from flaky_get writable [example_leaf_item, example_item_B]
                  [example_leaf_item, example_item_B] example_scraper) = 1"
    by simp
  from 7 have s7: "files (final (main_from flaky_get writable [example_leaf_item, example_item_B]
                   [example_leaf_item, example_item_B] example_scraper)) = []"
    by (simp add: o)
  show ?thesis
    by (intro conjI) (rule a b c d e f g h 1 2 4 s5 s6 s7 fetch_example fetch_flaky_A)+
qed


text \<open>
  C2. If the fetch of any control among the completed futures fails, the run ends with
  exit status 1 and writes no file, wherever the failing control stands in the order of
  completion and however many fetches succeeded before it.
\<close>

theorem fail_fast:
  assumes "c \<in> set as_completed" and "fetch_control session_get c = Inl e"
  shows "exit_status (main_from session_get can_open navtree_parsed as_completed st) = 1 \<and>
         files (final (main_from session_get can_open navtree_parsed as_completed st)) = files st \<and>
         (0 < num_threads st \<longrightarrow>
            (\<exists>st'. main_from session_get can_open navtree_parsed as_completed st = SystemExit 1 st'))"
proof (cases "num_threads st \<le> 0")
  case True
  then show ?thesis by (simp add: main_from_def)
next
  case False
  from assms obtain st' where
    l: "main_loop session_get (length navtree_parsed) 0 as_completed st = SystemExit 1 st'"
    using main_loop_fails by blast
  have "files (final (main_loop session_get (length navtree_parsed) 0 as_completed st)) = files st"
    by (rule main_loop_files)
  with l have "files st' = files st" by simp
  with l False show ?thesis by (simp add: main_from_def)
qed

theorem fail_fast_witness:
  "example_item_B \<in> set [example_leaf_item, example_item_B] \<and>
   fetch_control flaky_get example_leaf_item = Inr (example_record example_leaf_item) \<and>
   fetch_control flaky_get example_item_B = Inl (AttributeError ''text'') \<and>
   exit_status (main_from flaky_get (\<lambda>p. True) [example_leaf_item, example_item_B]
                  [example_leaf_item, example_item_B] example_scraper) = 1 \<and>
   files (final (main_from flaky_get (\<lambda>p. True) [example_leaf_item, example_item_B]
                  [example_leaf_item, example_item_B] example_scraper)) = []"
proof -
  have m: "example_item_B \<in> set [example_leaf_item, example_item_B]" by simp
  have f: "files example_scraper = []" by (simp add: example_scraper_def init_def)
  from fail_fast [OF m fetch_flaky_B, of "\<lambda>p. True" "[example_leaf_item, example_item_B]" example_scraper]
    fetch_flaky_A fetch_flaky_B f
  show ?thesis by simp
qed


text \<open>
  C3. For work items with pairwise distinct ids whose fetches all succeed, in any order
  of completion: the loop returns and leaves \<open>total\<close> as it was; after the run the
  controls map has as many entries as there are items, its keys are distinct and are the
  items' ids, each item's record is stored under the item's id and every entry comes
  from an item; \<open>total\<close> is then the number of entries.
\<close>

theorem aggregation_uniqueness:
  assumes ids: "distinct (map item_id navtree_parsed)"
    and perm: "mset as_completed = mset navtree_parsed"
    and ok: "\<forall>c \<in> set navtree_parsed. \<exists>r. fetch_control session_get c = Inr r"
    and threads: "0 < num_threads st"
    and fresh: "controls (benchmark_data st) = []"
  shows "\<exists>st1. main_loop session_get (length navtree_parsed) 0 as_completed st = Returned st1 \<and>
           bd_total (benchmark_data st1) = bd_total (benchmark_data st) \<and>
           (\<exists>d. benchmark_data
                  (final (main_from session_get can_open navtree_parsed as_completed st)) = d \<and>
                length (controls d) = length navtree_parsed \<and>
                distinct (dict_keys (controls d)) \<and>
                set (dict_keys (controls d)) = item_id ` set navtree_parsed \<and>
                (\<forall>c \<in> set navtree_parsed. \<forall>r. fetch_control session_get c = Inr r \<longrightarrow>
                   (item_id c, r) \<in> set (controls d)) \<and>
                (\<forall>(k, r) \<in> set (controls d). \<exists>c \<in> set navtree_parsed.
                   k = item_id c \<and> fetch_control session_get c = Inr r) \<and>
                controls d = controls (benchmark_data st1) \<and>
                bd_total d = Some (length navtree_parsed))"
proof -
  let ?cs = "map (\<lambda>c. (item_id c, projr (fetch_control session_get c))) as_completed"
  let ?st1 = "st\<lparr>benchmark_data := (benchmark_data st)
                  \<lparr>controls := controls (benchmark_data st) @ ?cs\<rparr>,
                stdout := stdout st @
                  map (\<lambda>k. Scraping (Suc (0 + k)) (length navtree_parsed)) [0 ..< length as_completed]\<rparr>"
  from perm have s: "set as_completed = set navtree_parsed" by (rule mset_eq_setD)
  from perm have l: "length as_completed = length navtree_parsed" by (rule mset_eq_length)
  from perm have "mset (map item_id as_completed) = mset (map item_id navtree_parsed)" by simp
  with ids have d: "distinct (map item_id as_completed)"
    by (metis distinct_count_atmost_1 set_mset_mset)
  have loop: "main_loop session_get (length navtree_parsed) 0 as_completed st = Returned ?st1"
    using ok s d fresh by (intro main_loop_all_succeed) (simp_all add: dict_keys_def)
  have c: "controls (benchmark_data ?st1) = ?cs" using fresh by simp
  have keys: "dict_keys ?cs = map item_id as_completed" by (simp add: dict_keys_def comp_def)
  have m: "main_from session_get can_open navtree_parsed as_completed st =
             save can_open (?st1\<lparr>benchmark_data := (benchmark_data ?st1)
                                \<lparr>bd_total := Some (length (controls (benchmark_data ?st1)))\<rparr>\<rparr>)"
    using threads loop by (simp add: main_from_def)
  have mem: "\<forall>c \<in> set navtree_parsed. \<forall>r. fetch_control session_get c = Inr r \<longrightarrow>
               (item_id c, r) \<in> set ?cs"
  proof (intro ballI allI impI)
    fix c r assume "c \<in> set navtree_parsed" and r: "fetch_control session_get c = Inr r"
    then have "c \<in> set as_completed" using s by simp
    then have "(item_id c, projr (fetch_control session_get c)) \<in> set ?cs" by simp
    with r show "(item_id c, r) \<in> set ?cs" by simp
  qed
  have src: "\<forall>(k, r) \<in> set ?cs. \<exists>c \<in> set navtree_parsed.
               k = item_id c \<and> fetch_control session_get c = Inr r"
  proof (clarify)
    fix k r assume "(k, r) \<in> set ?cs"
    then obtain c where c: "c \<in> set as_completed" "k = item_id c"
      "r = projr (fetch_control session_get c)" by auto
    from c(1) s ok obtain r' where "fetch_control session_get c = Inr r'" by auto
    with c s show "\<exists>c \<in> set navtree_parsed. k = item_id c \<and> fetch_control session_get c = Inr r"
      by auto
  qed
  have t: "bd_total (benchmark_data ?st1) = bd_total (benchmark_data st)" by simp
  have D: "benchmark_data (final (main_from session_get can_open navtree_parsed as_completed st))
        = (benchmark_data ?st1)\<lparr>bd_total := Some (length (controls (benchmark_data ?st1)))\<rparr>"
    by (simp only: m save_data) simp
  show ?thesis
  proof (intro exI conjI)
    show "main_loop session_get (length navtree_parsed) 0 as_completed st = Returned ?st1" by (rule loop)
    show "bd_total (benchmark_data ?st1) = bd_total (benchmark_data st)" by (rule t)
    show "benchmark_data (final (main_from session_get can_open navtree_parsed as_completed st))
        = (benchmark_data ?st1)\<lparr>bd_total := Some (length (controls (benchmark_data ?st1)))\<rparr>"
      by (rule D)
    show "length (controls ((benchmark_data ?st1)\<lparr>bd_total := Some (length (controls (benchmark_data ?st1)))\<rparr>))
            = length navtree_parsed"
      using l fresh by simp
    show "distinct (dict_keys (controls ((benchmark_data ?st1)\<lparr>bd_total := Some (length (controls (benchmark_data ?st1)))\<rparr>)))"
      using d keys fresh by simp
    show "set (dict_keys (controls ((benchmark_data ?st1)\<lparr>bd_total := Some (length (controls (benchmark_data ?st1)))\<rparr>)))
            = item_id ` set navtree_parsed"
      using keys s fresh by simp
    show "\<forall>c \<in> set navtree_parsed. \<forall>r. fetch_control session_get c = Inr r \<longrightarrow>
            (item_id c, r) \<in> set (controls ((benchmark_data ?st1)\<lparr>bd_total := Some (length (controls (benchmark_data ?st1)))\<rparr>))"
      using mem fresh by simp
    show "\<forall>(k, r) \<in> set (controls ((benchmark_data ?st1)\<lparr>bd_total := Some (length (controls (benchmark_data ?st1)))\<rparr>)).
            \<exists>c \<in> set navtree_parsed. k = item_id c \<and> fetch_control session_get c = Inr r"
      using src fresh by simp
    show "controls ((benchmark_data ?st1)\<lparr>bd_total := Some (length (controls (benchmark_data ?st1)))\<rparr>)
            = controls (benchmark_data ?st1)"
      by simp
    show "bd_total ((benchmark_data ?st1)\<lparr>bd_total := Some (length (controls (benchmark_data ?st1)))\<rparr>)
            = Some (length navtree_parsed)"
      using l fresh by simp
  qed
qed

theorem aggregation_uniqueness_witness:
  "distinct (map item_id [example_leaf_item, example_item_B]) \<and>
   mset [example_item_B, example_leaf_item] = mset [example_leaf_item, example_item_B] \<and>
   fetch_control example_get example_leaf_item = Inr (example_record example_leaf_item) \<and>
   fetch_control example_get example_item_B = Inr (example_record example_item_B) \<and>
   0 < num_threads example_scraper \<and>
   controls (benchmark_data example_scraper) = [] \<and>
   length (controls (benchmark_data (final (main_from example_get (\<lambda>p. True)
      [example_leaf_item, example_item_B] [example_item_B, example_leaf_item] example_scraper)))) = 2 \<and>
   bd_total (benchmark_data (final (main_from example_get (\<lambda>p. True)
      [example_leaf_item, example_item_B] [example_item_B, example_leaf_item] example_scraper))) = Some 2"
proof -
  have h1: "distinct (map item_id [example_leaf_item, example_item_B])"
    by (simp add: example_leaf_item_def example_item_B_def)
  have h2: "mset [example_item_B, example_leaf_item] = mset [example_leaf_item, example_item_B]"
    by simp
  have h3: "\<forall>c \<in> set [example_leaf_item, example_item_B]. \<exists>r. fetch_control example_get c = Inr r"
    by (simp add: fetch_example)
  have h4: "0 < num_threads example_scraper"
    by (simp add: example_scraper_def init_def)
  have h5: "controls (benchmark_data example_scraper) = []"
    by (simp add: example_scraper_def init_def)
  from aggregation_uniqueness [OF h1 h2 h3 h4 h5, of "\<lambda>p. True"] h1 h2 h4 h5
    fetch_example [of example_leaf_item] fetch_example [of example_item_B]
  show ?thesis by auto
qed


text \<open>
  C7. The claim has a progress indicator after every completion, failed ones included.
  The source prints the indicator in the \<open>try\<close> branch only: a run whose single fetch
  fails prints the error line and no indicator.
\<close>

theorem no_progress_after_failure:
  "fetch_control failing_get example_leaf_item = Inl (RequestException ''timeout'') \<and>
   stdout (final (main_loop failing_get 1 0 [example_leaf_item] example_scraper)) =
     [Error_scraping (Str ''A'') (RequestException ''timeout'')] \<and>
   progress_counts (stdout (final (main_loop failing_get 1 0 [example_leaf_item] example_scraper))) = []"
  by (simp add: fetch_failing print_def example_scraper_def init_def example_leaf_item_def)


text \<open>
  C7, as the source has it. The loop prints the indicator \<open>k/n\<close> after each successful
  completion, with \<open>k\<close> counting 1, 2, 3, ... up to the number of completions before
  the first failure; for the first failed completion it prints the error line with the
  item's id, which carries no indicator, and nothing after it.
\<close>

theorem progress_after_success_only:
  "stdout (final (main_loop session_get n 0 as_completed st)) =
     stdout st @
     map (\<lambda>k. Scraping (Suc k) n) [0 ..< length (takeWhile (succeeds session_get) as_completed)] @
     failure_report session_get (dropWhile (succeeds session_get) as_completed) \<and>
   progress_counts (stdout (final (main_loop session_get n 0 as_completed st))) =
     progress_counts (stdout st) @
     [1 ..< Suc (length (takeWhile (succeeds session_get) as_completed))] \<and>
   progress_counts (failure_report session_get (dropWhile (succeeds session_get) as_completed)) = []"
proof -
  let ?m = "length (takeWhile (succeeds session_get) as_completed)"
  have a: "stdout (final (main_loop session_get n 0 as_completed st)) =
     stdout st @ map (\<lambda>k. Scraping (Suc k) n) [0 ..< ?m] @
     failure_report session_get (dropWhile (succeeds session_get) as_completed)"
    using main_loop_stdout [of session_get n 0 as_completed st] by simp
  have "map (\<lambda>k. Scraping (Suc k) n) [0 ..< ?m] = map (\<lambda>k. Scraping k n) (map Suc [0 ..< ?m])"
    by (simp add: comp_def)
  also have "map Suc [0 ..< ?m] = [1 ..< Suc ?m]"
    by (simp only: map_Suc_upt One_nat_def)
  finally have "progress_counts (map (\<lambda>k. Scraping (Suc k) n) [0 ..< ?m]) = [1 ..< Suc ?m]"
    by (simp only: progress_counts_Scraping)
  with a show ?thesis
    by (simp only: progress_counts_append progress_counts_failure_report append_Nil2 simp_thms)
qed

section \<open>The tabular file\<close>

lemma split_on_nonempty [simp]: "split_on sep s \<noteq> []"
  by (induction s) (auto split: list.splits)





















end
